theory Spec2Isabelle
  imports Main "HOL-Library.AList" "HOL-Library.Option_ord" "HOL-Library.Multiset"
begin

section \<open>Shotgun data as the models receive it\<close>

text \<open>
  The models of \<^verbatim>\<open>tk_multi_loader\<close> work on the dictionaries that the Shotgun
  \<^verbatim>\<open>find()\<close> call returns. A field value is \<^verbatim>\<open>None\<close>, a number, a text or an
  entity link \<^verbatim>\<open>{"type": .., "id": .., "name": ..}\<close>. A dictionary is an association
  list that is read with \<open>map_of\<close>; a missing key raises \<^verbatim>\<open>KeyError\<close>, subscripting a
  value that is no dictionary raises \<^verbatim>\<open>TypeError\<close>. A method that can raise returns
  \<open>Inl\<close> of the error, or \<open>Inr\<close> of its result and the state it leaves.
\<close>

datatype py_error = KeyError | TypeError

datatype sg_value =
    SgNone
  | SgInt int
  | SgStr string
  | SgLink (link_type: string) (link_id: int) (link_name: string)

type_synonym sg_dict = "(string \<times> sg_value) list"

text \<open>\<^verbatim>\<open>d[k]\<close> on a dictionary.\<close>

definition getitem :: "sg_dict \<Rightarrow> string \<Rightarrow> py_error + sg_value" where
  "getitem d k = (case map_of d k of None \<Rightarrow> Inl KeyError | Some v \<Rightarrow> Inr v)"

text \<open>\<^verbatim>\<open>d.get(k)\<close> on a dictionary: \<^verbatim>\<open>None\<close> for a missing key.\<close>

definition get :: "sg_dict \<Rightarrow> string \<Rightarrow> sg_value" where
  "get d k = (case map_of d k of None \<Rightarrow> SgNone | Some v \<Rightarrow> v)"

text \<open>Python's truth value of a field value, as \<^verbatim>\<open>if type_link:\<close> tests it.\<close>

fun truthy :: "sg_value \<Rightarrow> bool" where
  "truthy SgNone = False"
| "truthy (SgInt n) = (n \<noteq> 0)"
| "truthy (SgStr s) = (s \<noteq> [])"
| "truthy (SgLink t i n) = True"

text \<open>
  \<^verbatim>\<open>"%s" % v\<close>: a text is taken as it is, \<^verbatim>\<open>None\<close> prints as \<^verbatim>\<open>None\<close>, a number in
  decimal. How Python prints a dictionary (the order of its keys, the quoting of its
  strings) is left to the parameter \<open>repr\<close>.
\<close>

definition digit_char :: "nat \<Rightarrow> char" where
  "digit_char d = char_of (48 + d)"

function nat_digits :: "nat \<Rightarrow> string" where
  "nat_digits n = (if n < 10 then [digit_char n] else nat_digits (n div 10) @ [digit_char (n mod 10)])"
  by pat_completeness auto
termination
  by (relation "measure (\<lambda>n. n)") auto

definition str_int :: "int \<Rightarrow> string" where
  "str_int i = (if i < 0 then CHR ''-'' # nat_digits (nat (- i)) else nat_digits (nat i))"

fun format_s :: "(sg_value \<Rightarrow> string) \<Rightarrow> sg_value \<Rightarrow> string" where
  "format_s repr SgNone = ''None''"
| "format_s repr (SgInt n) = str_int n"
| "format_s repr (SgStr s) = s"
| "format_s repr (SgLink t i n) = repr (SgLink t i n)"

section \<open>Qt items\<close>

text \<open>
  The models store their data under the roles \<^verbatim>\<open>QtCore.Qt.UserRole + k\<close>; \<open>UserRole k\<close>
  is that role. Text and icon of an item are fields of their own.
\<close>

datatype role = UserRole nat

datatype pixmap =
    Resource string
  | FromImage string

text \<open>
  An item of the tree view, by what the models read from it: its text and its data
  under \<^verbatim>\<open>ShotgunModel.SG_DATA_ROLE\<close>.
\<close>

record tree_view_item =
  tv_text :: string
  tv_sg_data :: "sg_dict option"

datatype qvariant =
    QNone
  | QBool bool
  | QInt int
  | QPixmap pixmap
  | QDict sg_dict
  | QTreeViewItem tree_view_item

text \<open>A \<^verbatim>\<open>QStandardItem\<close>: text, icon and the data stored under each role.\<close>

record qitem =
  item_text :: string
  item_icon :: "pixmap option"
  item_data :: "role \<Rightarrow> qvariant"

definition QStandardItem :: "pixmap option \<Rightarrow> string \<Rightarrow> qitem" where
  "QStandardItem icon txt = \<lparr>item_text = txt, item_icon = icon, item_data = (\<lambda>r. QNone)\<rparr>"

definition setData :: "qvariant \<Rightarrow> role \<Rightarrow> qitem \<Rightarrow> qitem" where
  "setData v r item = item\<lparr>item_data := (item_data item)(r := v)\<rparr>"

definition setIcon :: "pixmap \<Rightarrow> qitem \<Rightarrow> qitem" where
  "setIcon p item = item\<lparr>item_icon := Some p\<rparr>"

definition setText :: "string \<Rightarrow> qitem \<Rightarrow> qitem" where
  "setText s item = item\<lparr>item_text := s\<rparr>"

section \<open>Calls into the ShotgunModel base class\<close>

record query =
  q_entity_type :: string
  q_filters :: "(string \<times> string \<times> sg_value) list option"
  q_hierarchy :: "string list"
  q_fields :: "string list"
  q_order :: "(string \<times> string) list option"

text \<open>
  The base class is not part of the sources. The calls that the \<^verbatim>\<open>load_data\<close> methods
  make into it are recorded in call order: \<open>Load_data\<close> is the base class's loading of
  the cached data for a query (\<^verbatim>\<open>ShotgunModel.load_data\<close>, in the later framework
  \<^verbatim>\<open>ShotgunModel._load_data\<close>), \<open>Refresh_data\<close> is the asynchronous refresh
  (\<^verbatim>\<open>refresh_data\<close>, later \<^verbatim>\<open>_refresh_data\<close>). Loading does not refresh: the
  docstring of \<^verbatim>\<open>SgLatestPublishModel.load_data\<close> has the load followed by a call of
  \<^verbatim>\<open>refresh_data()\<close>, and \<^verbatim>\<open>SgPublishHistoryModel.load_data\<close> makes that call itself.
\<close>

datatype base_call =
    Load_data query
  | Refresh_data

section \<open>SgLatestPublishModel\<close>

definition TYPE_ID_ROLE :: role where
  "TYPE_ID_ROLE = UserRole 101"

definition IS_FOLDER_ROLE :: role where
  "IS_FOLDER_ROLE = UserRole 102"

definition ASSOCIATED_TREE_VIEW_ITEM_ROLE :: role where
  "ASSOCIATED_TREE_VIEW_ITEM_ROLE = UserRole 103"

definition no_pubs_found_icon :: pixmap where
  "no_pubs_found_icon = Resource '':/res/no_publishes_found.png''"

definition folder_icon :: pixmap where
  "folder_icon = Resource '':/res/publish_folder.png''"

definition loading_icon :: pixmap where
  "loading_icon = Resource '':/res/publish_loading.png''"

text \<open>
  The state of the model: its own attributes, the rows of the item model
  (\<^verbatim>\<open>appendRow\<close>), the overlay shown by \<^verbatim>\<open>_show_overlay_pixmap\<close>, the thumbnail
  requests, the base class calls, and the mappings handed to
  \<^verbatim>\<open>self._publish_type_model.set_active_types\<close>, one entry per call.
\<close>

record latest_model =
  publish_type_field :: string
  treeview_folder_items :: "tree_view_item list"
  folder_items :: "qitem list"
  rows :: "qitem list"
  overlay_pixmap :: "pixmap option"
  thumbnail_requests :: "(qitem \<times> sg_value \<times> sg_value \<times> sg_value) list"
  base_calls :: "base_call list"
  set_active_types_calls :: "(int option \<times> int) list list"

text \<open>
  \<^verbatim>\<open>load_data\<close>. The publish entity type
  (\<^verbatim>\<open>tank.util.get_published_file_entity_type(app.tank)\<close>) is a parameter.
\<close>

definition SgLatestPublishModel_load_data ::
  "string \<Rightarrow> latest_model \<Rightarrow> sg_value \<Rightarrow> tree_view_item list \<Rightarrow> latest_model" where
  "SgLatestPublishModel_load_data publish_entity_type m sg_entity_link treeview_folder_items' =
     (let publish_type_field' =
            (if publish_entity_type = ''PublishedFile'' then ''published_file_type'' else ''tank_type'');
          publish_fields = [''name'', ''entity'', ''version_number'', ''image'', publish_type_field'];
          sg_filters =
            (if truthy sg_entity_link then Some [(''entity'', ''is'', sg_entity_link)] else None)
      in m\<lparr>publish_type_field := publish_type_field',
           treeview_folder_items := treeview_folder_items',
           base_calls := base_calls m @
             [Load_data \<lparr>q_entity_type = publish_entity_type, q_filters = sg_filters,
                         q_hierarchy = [''code''], q_fields = publish_fields,
                         q_order = Some [(''version_number'', ''asc'')]\<rparr>]\<rparr>)"

text \<open>
  \<^verbatim>\<open>_load_external_data\<close>. \<open>folder_item\<close> is the item built for one entry of the
  tree view folder list; \<^verbatim>\<open>ShotgunModel.SG_DATA_ROLE\<close>, a constant of the base class, is
  the parameter \<open>SG_DATA_ROLE\<close>.
\<close>

definition folder_item :: "role \<Rightarrow> tree_view_item \<Rightarrow> qitem" where
  "folder_item SG_DATA_ROLE tree_view_item =
     (let item = QStandardItem (Some folder_icon) (tv_text tree_view_item);
          item = setData QNone TYPE_ID_ROLE item;
          item = setData (QBool True) IS_FOLDER_ROLE item;
          item = setData (QTreeViewItem tree_view_item) ASSOCIATED_TREE_VIEW_ITEM_ROLE item;
          treeview_sg_data = tv_sg_data tree_view_item
      in setData (case treeview_sg_data of None \<Rightarrow> QNone | Some d \<Rightarrow> QDict d) SG_DATA_ROLE item)"

text \<open>
  The thumbnail request of one folder item: none when the tree view item has no data
  or no image, \<^verbatim>\<open>KeyError\<close> when the data has an image but no type or id.
\<close>

definition folder_thumbnail_request ::
  "qitem \<Rightarrow> sg_dict option \<Rightarrow> py_error + (qitem \<times> sg_value \<times> sg_value \<times> sg_value) list" where
  "folder_thumbnail_request item treeview_sg_data =
     (case treeview_sg_data of
        None \<Rightarrow> Inr []
      | Some d \<Rightarrow>
          if d \<noteq> [] \<and> truthy (get d ''image'')
          then (case getitem d ''image'' of
                  Inl e \<Rightarrow> Inl e
                | Inr url \<Rightarrow>
                    (case getitem d ''type'' of
                       Inl e \<Rightarrow> Inl e
                     | Inr ty \<Rightarrow>
                         (case getitem d ''id'' of
                            Inl e \<Rightarrow> Inl e
                          | Inr i \<Rightarrow> Inr [(item, url, ty, i)])))
          else Inr [])"

fun load_folder_items :: "role \<Rightarrow> latest_model \<Rightarrow> tree_view_item list \<Rightarrow> py_error + latest_model" where
  "load_folder_items SG_DATA_ROLE m [] = Inr m"
| "load_folder_items SG_DATA_ROLE m (tree_view_item # rest) =
     (let item = folder_item SG_DATA_ROLE tree_view_item
      in case folder_thumbnail_request item (tv_sg_data tree_view_item) of
           Inl e \<Rightarrow> Inl e
         | Inr requests \<Rightarrow>
             load_folder_items SG_DATA_ROLE
               (m\<lparr>thumbnail_requests := thumbnail_requests m @ requests,
                   rows := rows m @ [item],
                   folder_items := folder_items m @ [item]\<rparr>) rest)"

definition load_external_data :: "role \<Rightarrow> latest_model \<Rightarrow> py_error + latest_model" where
  "load_external_data SG_DATA_ROLE m =
     load_folder_items SG_DATA_ROLE (m\<lparr>folder_items := []\<rparr>) (treeview_folder_items m)"

text \<open>\<^verbatim>\<open>_populate_item\<close>, on an item that the base class has built for a record.\<close>

definition populate_item :: "latest_model \<Rightarrow> qitem \<Rightarrow> sg_dict \<Rightarrow> py_error + qitem" where
  "populate_item m item sg_data =
     (let item = setData (QBool False) IS_FOLDER_ROLE item;
          item = setIcon loading_icon item;
          type_link = get sg_data (publish_type_field m)
      in case (if truthy type_link
               then (case type_link of SgLink t i n \<Rightarrow> Inr (QInt i) | _ \<Rightarrow> Inl TypeError)
               else Inr QNone) of
           Inl e \<Rightarrow> Inl e
         | Inr type_id \<Rightarrow> Inr (setData type_id TYPE_ID_ROLE item))"

text \<open>
  One turn of the first loop of \<^verbatim>\<open>_before_data_processing\<close>: the label and the type id
  of a record.
\<close>

definition label_and_type_id ::
  "(sg_value \<Rightarrow> string) \<Rightarrow> string \<Rightarrow> sg_dict \<Rightarrow> py_error + (string \<times> int option)" where
  "label_and_type_id repr fld sg_item =
     (case getitem sg_item fld of
        Inl e \<Rightarrow> Inl e
      | Inr type_link \<Rightarrow>
          (case (if truthy type_link
                 then (case type_link of
                         SgLink t i n \<Rightarrow> Inr (Some i, n)
                       | _ \<Rightarrow> Inl TypeError)
                 else Inr (None, ''No Type'')) of
             Inl e \<Rightarrow> Inl e
           | Inr (type_id, type_name) \<Rightarrow>
               (case getitem sg_item ''name'' of
                  Inl e \<Rightarrow> Inl e
                | Inr name \<Rightarrow> Inr (format_s repr name @ '', '' @ type_name, type_id))))"

text \<open>
  The first pass. \<^verbatim>\<open>unique_data\<close> is a dictionary in insertion order: storing under a
  key that is present replaces the value in place, a new key goes to the end. The
  second pass goes through its values in that order; the properties proved below are
  about the returned records as a collection and hold for any other order of the
  values as well.
\<close>

fun first_pass ::
  "(sg_value \<Rightarrow> string) \<Rightarrow> string \<Rightarrow> (string \<times> sg_dict \<times> int option) list \<Rightarrow> sg_dict list
     \<Rightarrow> py_error + (string \<times> sg_dict \<times> int option) list" where
  "first_pass repr fld unique_data [] = Inr unique_data"
| "first_pass repr fld unique_data (sg_item # rest) =
     (case label_and_type_id repr fld sg_item of
        Inl e \<Rightarrow> Inl e
      | Inr (label, type_id) \<Rightarrow>
          first_pass repr fld (AList.update label (sg_item, type_id) unique_data) rest)"

text \<open>\<^verbatim>\<open>type_id_aggregates[type_id] += 1\<close> on a \<^verbatim>\<open>defaultdict(int)\<close>.\<close>

definition increment :: "(int option \<times> int) list \<Rightarrow> int option \<Rightarrow> (int option \<times> int) list" where
  "increment aggregates k =
     AList.update k ((case map_of aggregates k of None \<Rightarrow> 0 | Some c \<Rightarrow> c) + 1) aggregates"

fun second_pass ::
  "sg_dict list \<Rightarrow> (int option \<times> int) list \<Rightarrow> (sg_dict \<times> int option) list
     \<Rightarrow> sg_dict list \<times> (int option \<times> int) list" where
  "second_pass new_sg_data type_id_aggregates [] = (new_sg_data, type_id_aggregates)"
| "second_pass new_sg_data type_id_aggregates ((sg_item, type_id) # rest) =
     second_pass (new_sg_data @ [sg_item]) (increment type_id_aggregates type_id) rest"

definition before_data_processing ::
  "(sg_value \<Rightarrow> string) \<Rightarrow> latest_model \<Rightarrow> sg_dict list
     \<Rightarrow> py_error + (sg_dict list \<times> latest_model)" where
  "before_data_processing repr m sg_data_list =
     (if length sg_data_list = 0 \<and> length (treeview_folder_items m) = 0
      then Inr ([], m\<lparr>overlay_pixmap := Some no_pubs_found_icon,
                       set_active_types_calls := set_active_types_calls m @ [[]]\<rparr>)
      else
        (case first_pass repr (publish_type_field m) [] sg_data_list of
           Inl e \<Rightarrow> Inl e
         | Inr unique_data \<Rightarrow>
             (case second_pass [] [] (map snd unique_data) of
                (new_sg_data, type_id_aggregates) \<Rightarrow>
                  Inr (new_sg_data,
                       m\<lparr>set_active_types_calls :=
                           set_active_types_calls m @ [type_id_aggregates]\<rparr>))))"

text \<open>
  What the properties below say about a record: its label, as the first pass builds
  it, the id of its publish-type link (\<open>None\<close> without a link) and its version number.
  A record without an integer \<^verbatim>\<open>version_number\<close> has version \<open>None\<close>, which the order
  on \<open>int option\<close> puts below every number.
\<close>

definition record_label :: "(sg_value \<Rightarrow> string) \<Rightarrow> string \<Rightarrow> sg_dict \<Rightarrow> py_error + string" where
  "record_label repr fld sg_item = map_sum id fst (label_and_type_id repr fld sg_item)"

definition type_link_id :: "string \<Rightarrow> sg_dict \<Rightarrow> int option" where
  "type_link_id fld sg_item = (case map_of sg_item fld of Some (SgLink t i n) \<Rightarrow> Some i | _ \<Rightarrow> None)"

definition version_number :: "sg_dict \<Rightarrow> int option" where
  "version_number sg_item = (case map_of sg_item ''version_number'' of Some (SgInt n) \<Rightarrow> Some n | _ \<Rightarrow> None)"

text \<open>
  The identity of a publish, read from the record alone: its name and the name of its
  publish type, \<^verbatim>\<open>No Type\<close> for a record without a publish-type link. \<open>identity_text\<close>
  is the text \<^verbatim>\<open>"<name>, <type name>"\<close> of an identity; different identities can have
  the same text. \<open>ascending_per_identity\<close> says that the records of each identity come
  in ascending order of version number.
\<close>

definition publish_type_name :: "string \<Rightarrow> sg_dict \<Rightarrow> string" where
  "publish_type_name fld sg_item =
     (case map_of sg_item fld of Some (SgLink t i n) \<Rightarrow> n | _ \<Rightarrow> ''No Type'')"

definition publish_identity :: "string \<Rightarrow> sg_dict \<Rightarrow> sg_value \<times> string" where
  "publish_identity fld sg_item = (get sg_item ''name'', publish_type_name fld sg_item)"

definition identity_text :: "(sg_value \<Rightarrow> string) \<Rightarrow> sg_value \<times> string \<Rightarrow> string" where
  "identity_text repr k = format_s repr (fst k) @ '', '' @ snd k"

definition ascending_per_identity :: "string \<Rightarrow> sg_dict list \<Rightarrow> bool" where
  "ascending_per_identity fld xs =
     list_all (\<lambda>x. sorted (map version_number
                  (filter (\<lambda>r. publish_identity fld r = publish_identity fld x) xs))) xs"

section \<open>SgPublishHistoryModel\<close>

definition USER_THUMB_ROLE :: role where
  "USER_THUMB_ROLE = UserRole 101"

definition PUBLISH_THUMB_ROLE :: role where
  "PUBLISH_THUMB_ROLE = UserRole 102"

text \<open>The settings of the app that \<^verbatim>\<open>load_data\<close> reads with \<^verbatim>\<open>app.get_setting\<close>.\<close>

record app_settings =
  published_file_fields :: "string list"
  publish_history_group_by_fields :: "string list"
  publish_filters :: "(string \<times> string \<times> sg_value) list"

record history_model =
  use_version_thumbnail_as_fallback :: bool
  history_base_calls :: "base_call list"

text \<open>The loop of \<^verbatim>\<open>load_data\<close> that builds one filter per group-by field.\<close>

fun group_by_filters ::
  "sg_dict \<Rightarrow> (string \<times> string \<times> sg_value) list \<Rightarrow> string list
     \<Rightarrow> py_error + (string \<times> string \<times> sg_value) list" where
  "group_by_filters sg_data filters [] = Inr filters"
| "group_by_filters sg_data filters (field # rest) =
     (case getitem sg_data field of
        Inl e \<Rightarrow> Inl e
      | Inr v \<Rightarrow> group_by_filters sg_data (filters @ [(field, ''is'', v)]) rest)"

text \<open>
  \<^verbatim>\<open>load_data\<close>. The publish entity type and \<^verbatim>\<open>constants.PUBLISHED_FILES_FIELDS\<close>
  are parameters.
\<close>

definition SgPublishHistoryModel_load_data ::
  "string \<Rightarrow> string list \<Rightarrow> app_settings \<Rightarrow> history_model \<Rightarrow> sg_dict
     \<Rightarrow> py_error + history_model" where
  "SgPublishHistoryModel_load_data publish_entity_type PUBLISHED_FILES_FIELDS app m sg_data =
     (let publish_type_field =
            (if publish_entity_type = ''PublishedFile'' then ''published_file_type'' else ''tank_type'');
          fields = [publish_type_field] @ PUBLISHED_FILES_FIELDS @ published_file_fields app
      in case group_by_filters sg_data [] (publish_history_group_by_fields app) of
           Inl e \<Rightarrow> Inl e
         | Inr filters \<Rightarrow>
             Inr (m\<lparr>history_base_calls := history_base_calls m @
                    [Load_data \<lparr>q_entity_type = publish_entity_type,
                                q_filters = Some (filters @ publish_filters app),
                                q_hierarchy = [''version_number''], q_fields = fields,
                                q_order = None\<rparr>,
                     Refresh_data]\<rparr>))"

text \<open>
  \<^verbatim>\<open>_populate_thumbnail_image\<close>. The helpers \<^verbatim>\<open>utils.get_thumbnail_field_for_item\<close>
  and \<^verbatim>\<open>utils.create_overlayed_user_publish_thumbnail\<close> are parameters; the first
  returns a field name or \<^verbatim>\<open>None\<close>. \<open>img\<close> is the source's \<^verbatim>\<open>image\<close>.
\<close>

definition populate_thumbnail_image ::
  "(qitem \<Rightarrow> bool \<Rightarrow> string option) \<Rightarrow> (qvariant \<Rightarrow> qvariant \<Rightarrow> pixmap) \<Rightarrow> history_model
     \<Rightarrow> qitem \<Rightarrow> string \<Rightarrow> string \<Rightarrow> string \<Rightarrow> qitem" where
  "populate_thumbnail_image get_thumbnail_field_for_item create_overlayed_user_publish_thumbnail
       m item field img path =
     (let image_field = get_thumbnail_field_for_item item (use_version_thumbnail_as_fallback m);
          item =
            (if image_field \<noteq> None \<and> image_field \<noteq> Some [] \<and> Some field = image_field
             then setData (QPixmap (FromImage img)) PUBLISH_THUMB_ROLE item
             else if field = ''created_by.HumanUser.image''
             then setData (QPixmap (FromImage img)) USER_THUMB_ROLE item
             else item);
          thumb = create_overlayed_user_publish_thumbnail
                    (item_data item PUBLISH_THUMB_ROLE) (item_data item USER_THUMB_ROLE)
      in setIcon thumb item)"

section \<open>Example data\<close>

definition example_repr :: "sg_value \<Rightarrow> string" where
  "example_repr v = ''{}''"

definition scene_v1 :: sg_dict where
  "scene_v1 = [(''type'', SgStr ''PublishedFile''), (''id'', SgInt 1), (''name'', SgStr ''scene''),
               (''version_number'', SgInt 1),
               (''published_file_type'', SgLink ''PublishedFileType'' 7 ''Maya Scene'')]"

definition scene_v2 :: sg_dict where
  "scene_v2 = [(''type'', SgStr ''PublishedFile''), (''id'', SgInt 2), (''name'', SgStr ''scene''),
               (''version_number'', SgInt 2),
               (''published_file_type'', SgLink ''PublishedFileType'' 7 ''Maya Scene'')]"

definition notes_v1 :: sg_dict where
  "notes_v1 = [(''type'', SgStr ''PublishedFile''), (''id'', SgInt 3), (''name'', SgStr ''notes''),
               (''version_number'', SgInt 1), (''published_file_type'', SgNone)]"

definition collide_a :: sg_dict where
  "collide_a = [(''type'', SgStr ''PublishedFile''), (''id'', SgInt 10), (''name'', SgStr ''a, b''),
                (''version_number'', SgInt 1),
                (''published_file_type'', SgLink ''PublishedFileType'' 1 ''c'')]"

definition collide_b :: sg_dict where
  "collide_b = [(''type'', SgStr ''PublishedFile''), (''id'', SgInt 11), (''name'', SgStr ''a''),
                (''version_number'', SgInt 2),
                (''published_file_type'', SgLink ''PublishedFileType'' 2 ''b, c'')]"

definition shot_folder :: tree_view_item where
  "shot_folder = \<lparr>tv_text = ''shot_010'',
     tv_sg_data = Some [(''type'', SgStr ''Shot''), (''id'', SgInt 12),
                        (''image'', SgStr ''http://sg/12.jpg'')]\<rparr>"

definition plain_folder :: tree_view_item where
  "plain_folder = \<lparr>tv_text = ''Shots'', tv_sg_data = None\<rparr>"

definition example_model :: latest_model where
  "example_model = \<lparr>publish_type_field = ''published_file_type'', treeview_folder_items = [],
     folder_items = [], rows = [], overlay_pixmap = None, thumbnail_requests = [],
     base_calls = [], set_active_types_calls = []\<rparr>"

definition example_folder_model :: latest_model where
  "example_folder_model = example_model\<lparr>treeview_folder_items := [shot_folder, plain_folder]\<rparr>"

definition example_loaded_model :: latest_model where
  "example_loaded_model = example_folder_model\<lparr>
       folder_items := [folder_item (UserRole 1) shot_folder, folder_item (UserRole 1) plain_folder],
       rows := [folder_item (UserRole 1) shot_folder, folder_item (UserRole 1) plain_folder],
       thumbnail_requests := [(folder_item (UserRole 1) shot_folder,
                               SgStr ''http://sg/12.jpg'', SgStr ''Shot'', SgInt 12)]\<rparr>"

definition example_item :: qitem where
  "example_item = QStandardItem None ''001''"

definition example_populated_item :: qitem where
  "example_populated_item =
     setData (QInt 7) TYPE_ID_ROLE (setIcon loading_icon (setData (QBool False) IS_FOLDER_ROLE example_item))"

definition example_history_model :: history_model where
  "example_history_model = \<lparr>use_version_thumbnail_as_fallback = False, history_base_calls = []\<rparr>"

definition example_settings :: app_settings where
  "example_settings = \<lparr>published_file_fields = [''sg_status_list''],
     publish_history_group_by_fields = [''name''], publish_filters = []\<rparr>"

definition example_fields :: "string list" where
  "example_fields = [''name'', ''version_number'', ''image'']"

definition example_query :: query where
  "example_query = \<lparr>q_entity_type = ''PublishedFile'',
     q_filters = Some [(''name'', ''is'', SgStr ''scene'')],
     q_hierarchy = [''version_number''],
     q_fields = [''published_file_type'', ''name'', ''version_number'', ''image'', ''sg_status_list''],
     q_order = None\<rparr>"

definition example_thumbnail_field :: "qitem \<Rightarrow> bool \<Rightarrow> string option" where
  "example_thumbnail_field item fallback = Some ''image''"

definition example_overlay :: "qvariant \<Rightarrow> qvariant \<Rightarrow> pixmap" where
  "example_overlay publish_thumb user_thumb = Resource ''overlayed''"

section \<open>Properties of the two passes\<close>

lemma set_update_subset: "set (AList.update k v al) \<subseteq> insert (k, v) (set al)"
  by (induction al) auto

lemma first_pass_append:
  "first_pass repr fld u (xs @ ys) =
     (case first_pass repr fld u xs of Inl e \<Rightarrow> Inl e | Inr u1 \<Rightarrow> first_pass repr fld u1 ys)"
  by (induction xs arbitrary: u) (auto split: sum.splits)

text \<open>Every entry of \<^verbatim>\<open>unique_data\<close> holds a record of the input under its own label.\<close>

lemma first_pass_entries:
  "first_pass repr fld u xs = Inr u' \<Longrightarrow>
   \<forall>(l, x, t) \<in> set u. label_and_type_id repr fld x = Inr (l, t) \<and> x \<in> S \<Longrightarrow>
   set xs \<subseteq> S \<Longrightarrow>
   \<forall>(l, x, t) \<in> set u'. label_and_type_id repr fld x = Inr (l, t) \<and> x \<in> S"
proof (induction xs arbitrary: u)
  case Nil
  then show ?case by simp
next
  case (Cons a xs)
  from Cons.prems(1) obtain l t where a: "label_and_type_id repr fld a = Inr (l, t)"
    and rest: "first_pass repr fld (AList.update l (a, t) u) xs = Inr u'"
    by (auto split: sum.splits)
  have "\<forall>(l, x, t) \<in> set (AList.update l (a, t) u). label_and_type_id repr fld x = Inr (l, t) \<and> x \<in> S"
    using Cons.prems(2,3) a set_update_subset[of l "(a, t)" u] by auto
  with Cons.IH[OF rest] Cons.prems(3) show ?case by simp
qed

lemma first_pass_distinct:
  "first_pass repr fld u xs = Inr u' \<Longrightarrow> distinct (map fst u) \<Longrightarrow> distinct (map fst u')"
  by (induction xs arbitrary: u) (auto split: sum.splits intro: distinct_update)

lemma first_pass_returns:
  "first_pass repr fld u xs = Inr u' \<Longrightarrow> x \<in> set xs \<Longrightarrow>
   \<exists>l t. label_and_type_id repr fld x = Inr (l, t)"
  by (induction xs arbitrary: u) (auto split: sum.splits)

lemma first_pass_total:
  "\<forall>x \<in> set xs. \<exists>l t. label_and_type_id repr fld x = Inr (l, t) \<Longrightarrow>
   \<exists>u'. first_pass repr fld u xs = Inr u'"
  by (induction xs arbitrary: u) auto

lemma first_pass_untouched:
  "first_pass repr fld u xs = Inr u' \<Longrightarrow>
   \<forall>x \<in> set xs. record_label repr fld x \<noteq> Inr l \<Longrightarrow> map_of u' l = map_of u l"
proof (induction xs arbitrary: u)
  case Nil
  then show ?case by simp
next
  case (Cons a xs)
  from Cons.prems(1) obtain k t where a: "label_and_type_id repr fld a = Inr (k, t)"
    and rest: "first_pass repr fld (AList.update k (a, t) u) xs = Inr u'"
    by (auto split: sum.splits)
  from a Cons.prems(2) have "k \<noteq> l" by (auto simp: record_label_def)
  with Cons.IH[OF rest] Cons.prems(2) show ?case by (simp add: update_conv')
qed

text \<open>The last record of a label is the one that stays under it.\<close>

lemma first_pass_last_wins:
  assumes "first_pass repr fld u (pre @ x # post) = Inr u'"
      and "label_and_type_id repr fld x = Inr (l, t)"
      and "\<forall>y \<in> set post. record_label repr fld y \<noteq> Inr l"
  shows "map_of u' l = Some (x, t)"
proof -
  from assms(1) obtain u1 where u1: "first_pass repr fld u pre = Inr u1"
    and r: "first_pass repr fld u1 (x # post) = Inr u'"
    by (auto simp: first_pass_append split: sum.splits)
  from r assms(2) have "first_pass repr fld (AList.update l (x, t) u1) post = Inr u'" by simp
  from first_pass_untouched[OF this assms(3)] show ?thesis by (simp add: update_conv')
qed

lemma first_pass_keys:
  assumes "first_pass repr fld [] xs = Inr u"
  shows "map (record_label repr fld) (map (fst \<circ> snd) u) = map (Inr \<circ> fst) u"
proof -
  from first_pass_entries[OF assms, of UNIV]
  have "\<forall>(l, x, t) \<in> set u. label_and_type_id repr fld x = Inr (l, t)" by auto
  then show ?thesis by (auto simp: record_label_def)
qed

lemma first_pass_labels_distinct:
  assumes "first_pass repr fld [] xs = Inr u"
  shows "distinct (map (record_label repr fld) (map (fst \<circ> snd) u))"
proof -
  from first_pass_distinct[OF assms] have "distinct (map fst u)" by simp
  then have "distinct (map (Inr \<circ> fst) u :: (py_error + string) list)"
    by (simp add: distinct_map inj_on_def comp_def)
  then show ?thesis by (simp only: first_pass_keys[OF assms])
qed

text \<open>
  The records that the first pass keeps are those with no later record of the same
  label.
\<close>

lemma first_pass_selected:
  assumes u: "first_pass repr fld [] xs = Inr u"
  shows "r \<in> set (map (fst \<circ> snd) u) \<longleftrightarrow>
         (\<exists>pre post. xs = pre @ r # post \<and>
            (\<forall>y \<in> set post. record_label repr fld y \<noteq> record_label repr fld r))"
proof
  assume "r \<in> set (map (fst \<circ> snd) u)"
  then obtain l t where e: "(l, r, t) \<in> set u" by force
  from first_pass_distinct[OF u] have d: "distinct (map fst u)" by simp
  with e have m: "map_of u l = Some (r, t)" by simp
  have "\<exists>x \<in> set xs. record_label repr fld x = Inr l"
  proof (rule ccontr)
    assume "\<not> ?thesis"
    then have "map_of u l = map_of [] l" using first_pass_untouched[OF u] by blast
    with m show False by simp
  qed
  then obtain pre x post where s: "xs = pre @ x # post" and x: "record_label repr fld x = Inr l"
    and p: "\<forall>y \<in> set post. record_label repr fld y \<noteq> Inr l"
    using split_list_last_prop[of xs "\<lambda>x. record_label repr fld x = Inr l"] by blast
  from x obtain t' where x': "label_and_type_id repr fld x = Inr (l, t')"
    by (cases "label_and_type_id repr fld x") (auto simp: record_label_def)
  from first_pass_last_wins[OF u[unfolded s] x' p] m have "x = r" by simp
  with s x p show "\<exists>pre post. xs = pre @ r # post \<and>
            (\<forall>y \<in> set post. record_label repr fld y \<noteq> record_label repr fld r)" by auto
next
  assume "\<exists>pre post. xs = pre @ r # post \<and>
            (\<forall>y \<in> set post. record_label repr fld y \<noteq> record_label repr fld r)"
  then obtain pre post where s: "xs = pre @ r # post"
    and p: "\<forall>y \<in> set post. record_label repr fld y \<noteq> record_label repr fld r" by blast
  from first_pass_returns[OF u, of r] s obtain l t where r: "label_and_type_id repr fld r = Inr (l, t)"
    by auto
  then have "record_label repr fld r = Inr l" by (simp add: record_label_def)
  with p have "\<forall>y \<in> set post. record_label repr fld y \<noteq> Inr l" by simp
  from first_pass_last_wins[OF u[unfolded s] r this] have "map_of u l = Some (r, t)" .
  then have "(l, r, t) \<in> set u" by (rule map_of_SomeD)
  then show "r \<in> set (map (fst \<circ> snd) u)" by force
qed

lemma label_and_type_id_link:
  "label_and_type_id repr fld x = Inr (l, t) \<Longrightarrow> type_link_id fld x = t"
  by (auto simp: label_and_type_id_def type_link_id_def getitem_def
      split: option.splits sum.splits if_splits sg_value.splits)

lemma first_pass_type_ids:
  assumes "first_pass repr fld [] xs = Inr u"
  shows "\<forall>(x, t) \<in> set (map snd u). type_link_id fld x = t"
proof -
  from first_pass_entries[OF assms, of UNIV]
  have "\<forall>(l, x, t) \<in> set u. label_and_type_id repr fld x = Inr (l, t)" by auto
  then have "type_link_id fld x = t" if "(l, x, t) \<in> set u" for l x t
    using that label_and_type_id_link[of repr fld x l t] by auto
  then show ?thesis by auto
qed

lemma second_pass_data: "fst (second_pass acc aggs es) = acc @ map fst es"
  by (induction es arbitrary: acc aggs) auto

lemma sum_update:
  "sum_list (map snd (AList.update k v al)) =
     sum_list (map snd al) - (case map_of al k of None \<Rightarrow> 0 | Some c \<Rightarrow> c) + (v::int)"
  by (induction al) auto

lemma map_of_increment:
  "map_of (increment aggs k) =
     (map_of aggs)(k \<mapsto> (case map_of aggs k of None \<Rightarrow> 0 | Some c \<Rightarrow> c) + 1)"
  by (simp add: increment_def update_conv')

lemma sum_increment: "sum_list (map snd (increment aggs k)) = sum_list (map snd aggs) + 1"
  by (simp add: increment_def sum_update)

lemma distinct_increment: "distinct (map fst aggs) \<Longrightarrow> distinct (map fst (increment aggs k))"
  by (simp add: increment_def distinct_update)

lemma second_pass_count:
  "(case map_of (snd (second_pass acc aggs es)) k of None \<Rightarrow> 0 | Some c \<Rightarrow> c) =
     (case map_of aggs k of None \<Rightarrow> 0 | Some c \<Rightarrow> c) + int (length (filter (\<lambda>e. snd e = k) es))"
  by (induction es arbitrary: acc aggs) (auto simp: map_of_increment)

lemma second_pass_sum:
  "sum_list (map snd (snd (second_pass acc aggs es))) = sum_list (map snd aggs) + int (length es)"
  by (induction es arbitrary: acc aggs) (auto simp: sum_increment)

lemma second_pass_distinct:
  "distinct (map fst aggs) \<Longrightarrow> distinct (map fst (snd (second_pass acc aggs es)))"
  by (induction es arbitrary: acc aggs) (auto simp: distinct_increment)

lemma count_by_type_id:
  "\<forall>(x, t) \<in> set es. f x = t \<Longrightarrow>
   length (filter (\<lambda>e. snd e = k) es) = length (filter (\<lambda>r. f r = k) (map fst es))"
  by (induction es) auto

lemma one_per_label:
  assumes "distinct (map f xs)" and "y \<in> set xs"
  shows "length (filter (\<lambda>r. f r = f y) xs) = 1"
proof -
  from assms(1) have d: "distinct xs" and i: "inj_on f (set xs)" by (simp_all add: distinct_map)
  from i assms(2) have "{r. f r = f y} \<inter> set xs = {y}" by (auto dest: inj_onD)
  with distinct_length_filter[OF d, of "\<lambda>r. f r = f y"] show ?thesis by simp
qed

text \<open>
  What a returning call of \<^verbatim>\<open>_before_data_processing\<close> has done, on either of its two
  paths.
\<close>

lemma before_data_processing_Inr:
  assumes "before_data_processing repr m xs = Inr (out, m')"
  shows "\<exists>u. first_pass repr (publish_type_field m) [] xs = Inr u \<and> out = map (fst \<circ> snd) u \<and>
             set_active_types_calls m' =
               set_active_types_calls m @ [snd (second_pass [] [] (map snd u))]"
proof (cases "xs = [] \<and> treeview_folder_items m = []")
  case True
  with assms show ?thesis by (auto simp: before_data_processing_def)
next
  case False
  with assms have c: "(case first_pass repr (publish_type_field m) [] xs of
           Inl e \<Rightarrow> Inl e
         | Inr unique_data \<Rightarrow>
             (case second_pass [] [] (map snd unique_data) of
                (new_sg_data, type_id_aggregates) \<Rightarrow>
                  Inr (new_sg_data,
                       m\<lparr>set_active_types_calls :=
                           set_active_types_calls m @ [type_id_aggregates]\<rparr>))) = Inr (out, m')"
    by (auto simp: before_data_processing_def)
  then obtain u where u: "first_pass repr (publish_type_field m) [] xs = Inr u"
    by (cases "first_pass repr (publish_type_field m) [] xs") auto
  obtain d a where s: "second_pass [] [] (map snd u) = (d, a)"
    by (cases "second_pass [] [] (map snd u)")
  from c u s have "out = d"
    and "m' = m\<lparr>set_active_types_calls := set_active_types_calls m @ [a]\<rparr>"
    by auto
  moreover from second_pass_data[of "[]" "[]" "map snd u"] s have "d = map (fst \<circ> snd) u"
    by (simp add: comp_def)
  ultimately show ?thesis using u s by simp
qed

lemma before_data_processing_returns:
  assumes "\<forall>x \<in> set xs. \<exists>l t. label_and_type_id repr (publish_type_field m) x = Inr (l, t)"
  shows "\<exists>out m'. before_data_processing repr m xs = Inr (out, m')"
proof -
  from first_pass_total[OF assms] obtain u where
    "first_pass repr (publish_type_field m) [] xs = Inr u" by blast
  then show ?thesis
    by (cases "second_pass [] [] (map snd u)") (auto simp: before_data_processing_def)
qed

text \<open>
  A call returns when each record carries its name and a publish-type field that is
  \<^verbatim>\<open>None\<close> or an entity link, as the backend delivers the fields that \<^verbatim>\<open>load_data\<close>
  requests.
\<close>

lemma label_and_type_id_returns:
  "map_of x ''name'' \<noteq> None \<Longrightarrow>
   map_of x fld = Some SgNone \<or> (\<exists>ty i tn. map_of x fld = Some (SgLink ty i tn)) \<Longrightarrow>
   \<exists>l t. label_and_type_id repr fld x = Inr (l, t)"
  by (auto simp: label_and_type_id_def getitem_def)

lemma before_data_processing_total:
  assumes "\<forall>x \<in> set xs. map_of x ''name'' \<noteq> None \<and>
             (map_of x (publish_type_field m) = Some SgNone \<or>
              (\<exists>ty i tn. map_of x (publish_type_field m) = Some (SgLink ty i tn)))"
  shows "\<exists>out m'. before_data_processing repr m xs = Inr (out, m')"
  by (rule before_data_processing_returns) (use assms label_and_type_id_returns in blast)

section \<open>The records kept for each identity\<close>

text \<open>The label that the first pass builds is the text of the record's identity.\<close>

lemma label_is_identity_text:
  "label_and_type_id repr fld x = Inr (l, t) \<Longrightarrow> l = identity_text repr (publish_identity fld x)"
  by (auto simp: label_and_type_id_def identity_text_def publish_identity_def publish_type_name_def
      get_def getitem_def split: option.splits sum.splits if_splits sg_value.splits)

lemma returned_record_label:
  assumes "first_pass repr fld u xs = Inr u'" and "x \<in> set xs"
  shows "record_label repr fld x = Inr (identity_text repr (publish_identity fld x))"
proof -
  from first_pass_returns[OF assms] obtain l t where
    "label_and_type_id repr fld x = Inr (l, t)" by blast
  with label_is_identity_text[OF this] show ?thesis by (simp add: record_label_def)
qed

lemma label_eq_identity_eq:
  assumes u: "first_pass repr fld [] xs = Inr u"
      and nocoll: "inj_on (identity_text repr) (publish_identity fld ` set xs)"
      and a: "a \<in> set xs" and b: "b \<in> set xs"
  shows "record_label repr fld a = record_label repr fld b \<longleftrightarrow>
         publish_identity fld a = publish_identity fld b"
  using returned_record_label[OF u a] returned_record_label[OF u b] nocoll a b
  by (auto dest: inj_onD)

lemma selected_last_of_identity:
  assumes u: "first_pass repr fld [] xs = Inr u"
      and nocoll: "inj_on (identity_text repr) (publish_identity fld ` set xs)"
  shows "r \<in> set (map (fst \<circ> snd) u) \<longleftrightarrow>
         (\<exists>pre post. xs = pre @ r # post \<and>
            (\<forall>y \<in> set post. publish_identity fld y \<noteq> publish_identity fld r))"
proof -
  have "(\<forall>y \<in> set post. record_label repr fld y \<noteq> record_label repr fld r) \<longleftrightarrow>
        (\<forall>y \<in> set post. publish_identity fld y \<noteq> publish_identity fld r)"
    if "xs = pre @ r # post" for pre post
  proof -
    have "record_label repr fld y = record_label repr fld r \<longleftrightarrow>
          publish_identity fld y = publish_identity fld r" if "y \<in> set post" for y
      by (rule label_eq_identity_eq[OF u nocoll]) (use that \<open>xs = pre @ r # post\<close> in auto)
    then show ?thesis by blast
  qed
  then show ?thesis unfolding first_pass_selected[OF u] by blast
qed

lemma ascending_last_is_max:
  assumes asc: "ascending_per_identity fld xs"
      and s: "xs = pre @ r # post"
      and p: "\<forall>y \<in> set post. publish_identity fld y \<noteq> publish_identity fld r"
      and x: "x \<in> set xs" and e: "publish_identity fld x = publish_identity fld r"
  shows "version_number x \<le> version_number r"
proof -
  let ?P = "\<lambda>y. publish_identity fld y = publish_identity fld r"
  from asc s have "sorted (map version_number (filter ?P xs))"
    by (simp add: ascending_per_identity_def)
  moreover from p have "filter ?P post = []" by (simp add: filter_empty_conv)
  ultimately have srt: "sorted (map version_number (filter ?P pre) @ [version_number r])"
    by (simp add: s)
  from x s p e have "x \<in> set pre \<or> x = r" by auto
  then show ?thesis
  proof
    assume "x \<in> set pre"
    with e srt show ?thesis by (simp add: sorted_append)
  qed simp
qed

lemma selected_max_of_identity:
  assumes u: "first_pass repr fld [] xs = Inr u"
      and nocoll: "inj_on (identity_text repr) (publish_identity fld ` set xs)"
      and asc: "ascending_per_identity fld xs"
      and ties: "inj_on (\<lambda>r. (publish_identity fld r, version_number r)) (set xs)"
  shows "set (map (fst \<circ> snd) u) =
         {r \<in> set xs. \<forall>x \<in> set xs. publish_identity fld x = publish_identity fld r
                          \<longrightarrow> version_number x \<le> version_number r}"
proof (intro set_eqI iffI)
  fix r assume "r \<in> set (map (fst \<circ> snd) u)"
  then obtain pre post where s: "xs = pre @ r # post"
    and p: "\<forall>y \<in> set post. publish_identity fld y \<noteq> publish_identity fld r"
    unfolding selected_last_of_identity[OF u nocoll] by blast
  from s have "r \<in> set xs" by simp
  moreover have "version_number x \<le> version_number r"
    if "x \<in> set xs" "publish_identity fld x = publish_identity fld r" for x
    by (rule ascending_last_is_max[OF asc s p that])
  ultimately show "r \<in> {r \<in> set xs. \<forall>x \<in> set xs. publish_identity fld x = publish_identity fld r
                          \<longrightarrow> version_number x \<le> version_number r}" by blast
next
  fix r assume "r \<in> {r \<in> set xs. \<forall>x \<in> set xs. publish_identity fld x = publish_identity fld r
                          \<longrightarrow> version_number x \<le> version_number r}"
  then have r: "r \<in> set xs"
    and mx: "\<forall>x \<in> set xs. publish_identity fld x = publish_identity fld r
                \<longrightarrow> version_number x \<le> version_number r" by auto
  from r obtain pre r' post where s: "xs = pre @ r' # post"
    and e: "publish_identity fld r' = publish_identity fld r"
    and p: "\<forall>y \<in> set post. publish_identity fld y \<noteq> publish_identity fld r"
    using split_list_last_prop[of xs "\<lambda>y. publish_identity fld y = publish_identity fld r"] by blast
  from p e have p': "\<forall>y \<in> set post. publish_identity fld y \<noteq> publish_identity fld r'" by simp
  from s have r': "r' \<in> set xs" by simp
  from e have e': "publish_identity fld r = publish_identity fld r'" by simp
  have "version_number r \<le> version_number r'"
    by (rule ascending_last_is_max[OF asc s p' r e'])
  moreover from mx r' e have "version_number r' \<le> version_number r" by blast
  ultimately have "version_number r = version_number r'" by simp
  with ties r r' e' have "r = r'" by (auto dest: inj_onD)
  with s p' show "r \<in> set (map (fst \<circ> snd) u)"
    unfolding selected_last_of_identity[OF u nocoll] by blast
qed

lemma ascending_per_identity_sorted:
  "sorted (map version_number xs) \<Longrightarrow> ascending_per_identity fld xs"
  by (simp add: ascending_per_identity_def list_all_iff sorted_filter)

text \<open>
  On records in ascending order of version number whose identities have different
  texts, the returned list holds one record per identity, and no record of the input
  with that identity has a higher version number.
\<close>

lemma latest_version_per_identity:
  assumes srt: "sorted (map version_number xs)"
      and nocoll: "inj_on (identity_text repr) (publish_identity (publish_type_field m) ` set xs)"
      and ret: "before_data_processing repr m xs = Inr (out, m')"
  shows "set out \<subseteq> set xs \<and>
         (\<forall>x \<in> set xs.
            length (filter (\<lambda>r. publish_identity (publish_type_field m) r =
                                 publish_identity (publish_type_field m) x) out) = 1 \<and>
            (\<forall>r \<in> set out.
               publish_identity (publish_type_field m) r = publish_identity (publish_type_field m) x
                 \<longrightarrow> version_number x \<le> version_number r))"
proof -
  let ?fld = "publish_type_field m"
  let ?id = "publish_identity ?fld"
  let ?lab = "record_label repr ?fld"
  from before_data_processing_Inr[OF ret] obtain u where
    u: "first_pass repr ?fld [] xs = Inr u" and
    out: "out = map (fst \<circ> snd) u" by blast
  note sel = selected_last_of_identity[OF u nocoll, folded out]
  have sub: "set out \<subseteq> set xs" using sel by auto
  have dist: "distinct (map ?lab out)"
    unfolding out by (rule first_pass_labels_distinct[OF u])
  have one: "length (filter (\<lambda>r. ?id r = ?id x) out) = 1" if x: "x \<in> set xs" for x
  proof -
    from x obtain pre y post where s: "xs = pre @ y # post" and y: "?id y = ?id x"
      and p: "\<forall>z \<in> set post. ?id z \<noteq> ?id x"
      using split_list_last_prop[of xs "\<lambda>z. ?id z = ?id x"] by blast
    with sel[of y] have yo: "y \<in> set out" by auto
    have "filter (\<lambda>r. ?id r = ?id x) out = filter (\<lambda>r. ?lab r = ?lab y) out"
    proof (rule filter_cong[OF refl])
      fix r assume "r \<in> set out"
      with sub have "r \<in> set xs" by blast
      from label_eq_identity_eq[OF u nocoll this, of y] s y
      show "(?id r = ?id x) = (?lab r = ?lab y)" by simp
    qed
    with one_per_label[OF dist yo] show ?thesis by simp
  qed
  have mx: "version_number x \<le> version_number r"
    if x: "x \<in> set xs" and r: "r \<in> set out" and e: "?id r = ?id x" for x r
  proof -
    from r sel[of r] obtain pre post where s: "xs = pre @ r # post"
      and p: "\<forall>y \<in> set post. ?id y \<noteq> ?id r" by blast
    from e have "?id x = ?id r" by simp
    from ascending_last_is_max[OF ascending_per_identity_sorted[OF srt] s p x this]
    show ?thesis .
  qed
  from sub one mx show ?thesis by blast
qed

section \<open>Evaluation on the example data\<close>

lemma label_scene_v1:
  "label_and_type_id example_repr ''published_file_type'' scene_v1 =
     Inr (''scene, Maya Scene'', Some 7)"
  by (simp add: label_and_type_id_def getitem_def scene_v1_def)

lemma label_scene_v2:
  "label_and_type_id example_repr ''published_file_type'' scene_v2 =
     Inr (''scene, Maya Scene'', Some 7)"
  by (simp add: label_and_type_id_def getitem_def scene_v2_def)

lemma label_notes_v1:
  "label_and_type_id example_repr ''published_file_type'' notes_v1 =
     Inr (''notes, No Type'', None)"
  by (simp add: label_and_type_id_def getitem_def notes_v1_def)

lemma example_versions:
  "version_number scene_v1 = Some 1" "version_number scene_v2 = Some 2"
  "version_number notes_v1 = Some 1"
  by (simp_all add: version_number_def scene_v1_def scene_v2_def notes_v1_def)

lemma example_distinct:
  "scene_v1 \<noteq> scene_v2" "scene_v1 \<noteq> notes_v1" "scene_v2 \<noteq> notes_v1"
  by (simp_all add: scene_v1_def scene_v2_def notes_v1_def)

lemma example_run:
  "before_data_processing example_repr example_model [scene_v1, notes_v1, scene_v2] =
     Inr ([scene_v2, notes_v1],
          example_model\<lparr>set_active_types_calls := [[(Some 7, 1), (None, 1)]]\<rparr>)"
  by (simp add: before_data_processing_def example_model_def label_scene_v1 label_scene_v2
      label_notes_v1 increment_def)

lemma example_run_ascending:
  "before_data_processing example_repr example_model [scene_v1, scene_v2] =
     Inr ([scene_v2], example_model\<lparr>set_active_types_calls := [[(Some 7, 1)]]\<rparr>)"
  by (simp add: before_data_processing_def example_model_def label_scene_v1 label_scene_v2
      increment_def)

lemma example_run_descending:
  "before_data_processing example_repr example_model [scene_v2, scene_v1] =
     Inr ([scene_v1], example_model\<lparr>set_active_types_calls := [[(Some 7, 1)]]\<rparr>)"
  by (simp add: before_data_processing_def example_model_def label_scene_v1 label_scene_v2
      increment_def)

lemma example_identities:
  "publish_identity (publish_type_field example_model) scene_v1 = (SgStr ''scene'', ''Maya Scene'')"
  "publish_identity (publish_type_field example_model) scene_v2 = (SgStr ''scene'', ''Maya Scene'')"
  "publish_identity (publish_type_field example_model) notes_v1 = (SgStr ''notes'', ''No Type'')"
  by (simp_all add: publish_identity_def publish_type_name_def get_def example_model_def
      scene_v1_def scene_v2_def notes_v1_def)

lemma label_collide_a:
  "label_and_type_id example_repr ''published_file_type'' collide_a = Inr (''a, b, c'', Some 1)"
  by (simp add: label_and_type_id_def getitem_def collide_a_def)

lemma label_collide_b:
  "label_and_type_id example_repr ''published_file_type'' collide_b = Inr (''a, b, c'', Some 2)"
  by (simp add: label_and_type_id_def getitem_def collide_b_def)

lemma collide_identities:
  "publish_identity (publish_type_field example_model) collide_a = (SgStr ''a, b'', ''c'')"
  "publish_identity (publish_type_field example_model) collide_b = (SgStr ''a'', ''b, c'')"
  by (simp_all add: publish_identity_def publish_type_name_def get_def example_model_def
      collide_a_def collide_b_def)

lemma collide_versions:
  "version_number collide_a = Some 1" "version_number collide_b = Some 2"
  by (simp_all add: version_number_def collide_a_def collide_b_def)

lemma collide_carry:
  "publish_type_field example_model \<in> fst ` set collide_a"
  "publish_type_field example_model \<in> fst ` set collide_b"
  by (simp_all add: example_model_def collide_a_def collide_b_def)

lemma collide_run:
  "before_data_processing example_repr example_model [collide_a, collide_b] =
     Inr ([collide_b], example_model\<lparr>set_active_types_calls := [[(Some 2, 1)]]\<rparr>)"
  by (simp add: before_data_processing_def example_model_def label_collide_a label_collide_b
      increment_def)

text \<open>
  With two identities of the same text the returned records depend on the order of
  the input even though each identity has a single record.
\<close>

lemma collide_run_swapped:
  "before_data_processing example_repr example_model [collide_b, collide_a] =
     Inr ([collide_a], example_model\<lparr>set_active_types_calls := [[(Some 1, 1)]]\<rparr>)"
  by (simp add: before_data_processing_def example_model_def label_collide_a label_collide_b
      increment_def)

lemma example_history_load:
  "SgPublishHistoryModel_load_data ''PublishedFile'' example_fields example_settings
     example_history_model scene_v1 =
   Inr (example_history_model\<lparr>history_base_calls := [Load_data example_query, Refresh_data]\<rparr>)"
  by (simp add: SgPublishHistoryModel_load_data_def example_fields_def example_settings_def
      example_history_model_def scene_v1_def getitem_def example_query_def)

lemma example_load_external:
  "load_external_data (UserRole 1) example_folder_model = Inr example_loaded_model"
  by (simp add: load_external_data_def example_folder_model_def example_loaded_model_def
      example_model_def shot_folder_def plain_folder_def folder_thumbnail_request_def
      get_def getitem_def Let_def)

lemma example_populate:
  "populate_item example_model example_item scene_v1 = Inr example_populated_item"
  by (simp add: populate_item_def example_model_def scene_v1_def get_def Let_def
      example_populated_item_def)

lemma load_folder_items_rows:
  "load_folder_items r m tvs = Inr m' \<Longrightarrow> rows m' = rows m @ map (folder_item r) tvs"
  by (induction tvs arbitrary: m) (auto simp: Let_def split: sum.splits)

lemma folder_item_data:
  "r \<noteq> TYPE_ID_ROLE \<Longrightarrow> item_data (folder_item r tv) TYPE_ID_ROLE = QNone"
  "r \<noteq> IS_FOLDER_ROLE \<Longrightarrow> item_data (folder_item r tv) IS_FOLDER_ROLE = QBool True"
  "r \<noteq> ASSOCIATED_TREE_VIEW_ITEM_ROLE \<Longrightarrow>
     item_data (folder_item r tv) ASSOCIATED_TREE_VIEW_ITEM_ROLE = QTreeViewItem tv"
  "item_text (folder_item r tv) = tv_text tv"
  by (simp_all add: folder_item_def Let_def setData_def QStandardItem_def TYPE_ID_ROLE_def
      IS_FOLDER_ROLE_def ASSOCIATED_TREE_VIEW_ITEM_ROLE_def)

section \<open>The latest publish per identity\<close>

text \<open>
  C1 says that, on records in ascending order of \<^verbatim>\<open>version_number\<close> that all carry the
  publish-type field, the returned list holds exactly one record for each
  (name, publish-type name) identity, the one of highest version. The first pass keys
  its dictionary by the text \<^verbatim>\<open>"%s, %s" % (name, type_name)\<close>, although its comment
  says that it keys by type and name. The publish \<^verbatim>\<open>a, b\<close> of type \<^verbatim>\<open>c\<close> and the
  publish \<^verbatim>\<open>a\<close> of type \<^verbatim>\<open>b, c\<close> have the same text: given both, in ascending order of
  version, the model returns the second only, and no record for the identity of the
  first.
\<close>

theorem label_collision_failing_input:
  "sorted (map version_number [collide_a, collide_b]) \<and>
   publish_type_field example_model \<in> fst ` set collide_a \<and>
   publish_type_field example_model \<in> fst ` set collide_b \<and>
   publish_identity (publish_type_field example_model) collide_a = (SgStr ''a, b'', ''c'') \<and>
   publish_identity (publish_type_field example_model) collide_b = (SgStr ''a'', ''b, c'') \<and>
   before_data_processing example_repr example_model [collide_a, collide_b] =
     Inr ([collide_b], example_model\<lparr>set_active_types_calls := [[(Some 2, 1)]]\<rparr>) \<and>
   length (filter (\<lambda>r. publish_identity (publish_type_field example_model) r =
                        publish_identity (publish_type_field example_model) collide_a)
             [collide_b]) = 0"
  using collide_run collide_carry by (simp add: collide_identities collide_versions)

text \<open>
  C2 says that the selection does not depend on the order of the input. The first pass
  keeps the record that comes last under each label, so it does: given version 2 before
  version 1 of the same publish, the model returns version 1.
\<close>

theorem order_dependent_counterexample:
  "mset [scene_v2, scene_v1] = mset [scene_v1, scene_v2] \<and>
   before_data_processing example_repr example_model [scene_v1, scene_v2] =
     Inr ([scene_v2], example_model\<lparr>set_active_types_calls := [[(Some 7, 1)]]\<rparr>) \<and>
   before_data_processing example_repr example_model [scene_v2, scene_v1] =
     Inr ([scene_v1], example_model\<lparr>set_active_types_calls := [[(Some 7, 1)]]\<rparr>) \<and>
   set [scene_v1] \<noteq> set [scene_v2] \<and>
   version_number scene_v1 < version_number scene_v2"
  using example_run_ascending example_run_descending example_distinct
  by (simp add: example_versions)

text \<open>
  C2, amended. Take a list of records and a permutation of it such that, in both, the
  records of each (name, publish-type name) identity come in ascending order of
  \<^verbatim>\<open>version_number\<close>, no two different records share identity and version number, and
  no two different identities have the same text. If the call returns for the list, it
  returns for the permutation, and both calls return the same set of records: the
  records of the input that have the highest version number of their identity.
\<close>

theorem same_selection_per_identity:
  assumes perm: "mset ys = mset xs"
      and ax: "ascending_per_identity (publish_type_field m) xs"
      and ay: "ascending_per_identity (publish_type_field m) ys"
      and ties: "inj_on (\<lambda>r. (publish_identity (publish_type_field m) r, version_number r)) (set xs)"
      and nocoll: "inj_on (identity_text repr) (publish_identity (publish_type_field m) ` set xs)"
      and ret: "before_data_processing repr m xs = Inr (out, m')"
  shows "\<exists>out' m''. before_data_processing repr m ys = Inr (out', m'') \<and> set out' = set out \<and>
           set out = {r \<in> set xs. \<forall>x \<in> set xs.
                        publish_identity (publish_type_field m) x = publish_identity (publish_type_field m) r
                          \<longrightarrow> version_number x \<le> version_number r}"
proof -
  let ?fld = "publish_type_field m"
  from perm have set_eq: "set ys = set xs" by (rule mset_eq_setD)
  from before_data_processing_Inr[OF ret] obtain u where
    u: "first_pass repr ?fld [] xs = Inr u" and
    out: "out = map (fst \<circ> snd) u" by blast
  have "\<forall>x \<in> set ys. \<exists>l t. label_and_type_id repr ?fld x = Inr (l, t)"
    using first_pass_returns[OF u] set_eq by blast
  from before_data_processing_returns[OF this] obtain d m'' where
    run: "before_data_processing repr m ys = Inr (d, m'')" by blast
  from before_data_processing_Inr[OF run] obtain u' where
    u': "first_pass repr ?fld [] ys = Inr u'" and
    d: "d = map (fst \<circ> snd) u'" by blast
  from ties nocoll set_eq
  have ties': "inj_on (\<lambda>r. (publish_identity ?fld r, version_number r)) (set ys)"
    and nocoll': "inj_on (identity_text repr) (publish_identity ?fld ` set ys)" by simp_all
  have 1: "set out = {r \<in> set xs. \<forall>x \<in> set xs.
                        publish_identity ?fld x = publish_identity ?fld r
                          \<longrightarrow> version_number x \<le> version_number r}"
    unfolding out by (rule selected_max_of_identity[OF u nocoll ax ties])
  have "set d = {r \<in> set ys. \<forall>x \<in> set ys.
                        publish_identity ?fld x = publish_identity ?fld r
                          \<longrightarrow> version_number x \<le> version_number r}"
    unfolding d by (rule selected_max_of_identity[OF u' nocoll' ay ties'])
  with 1 set_eq have "set d = set out" by simp
  with run 1 show ?thesis by blast
qed

theorem same_selection_per_identity_witness:
  "mset [scene_v1, scene_v2, notes_v1] = mset [scene_v1, notes_v1, scene_v2] \<and>
   ascending_per_identity (publish_type_field example_model) [scene_v1, notes_v1, scene_v2] \<and>
   ascending_per_identity (publish_type_field example_model) [scene_v1, scene_v2, notes_v1] \<and>
   \<not> sorted (map version_number [scene_v1, scene_v2, notes_v1]) \<and>
   inj_on (\<lambda>r. (publish_identity (publish_type_field example_model) r, version_number r))
     (set [scene_v1, notes_v1, scene_v2]) \<and>
   inj_on (identity_text example_repr)
     (publish_identity (publish_type_field example_model) ` set [scene_v1, notes_v1, scene_v2]) \<and>
   before_data_processing example_repr example_model [scene_v1, notes_v1, scene_v2] =
     Inr ([scene_v2, notes_v1],
          example_model\<lparr>set_active_types_calls := [[(Some 7, 1), (None, 1)]]\<rparr>) \<and>
   (\<exists>out' m''. before_data_processing example_repr example_model [scene_v1, scene_v2, notes_v1] =
        Inr (out', m'') \<and> set out' = set [scene_v2, notes_v1] \<and>
      set [scene_v2, notes_v1] =
        {r \<in> set [scene_v1, notes_v1, scene_v2]. \<forall>x \<in> set [scene_v1, notes_v1, scene_v2].
           publish_identity (publish_type_field example_model) x =
             publish_identity (publish_type_field example_model) r
             \<longrightarrow> version_number x \<le> version_number r})"
proof -
  have p: "mset [scene_v1, scene_v2, notes_v1] = mset [scene_v1, notes_v1, scene_v2]"
    by simp
  have ax: "ascending_per_identity (publish_type_field example_model) [scene_v1, notes_v1, scene_v2]"
    by (simp add: ascending_per_identity_def example_identities example_versions)
  have ay: "ascending_per_identity (publish_type_field example_model) [scene_v1, scene_v2, notes_v1]"
    by (simp add: ascending_per_identity_def example_identities example_versions)
  have ns: "\<not> sorted (map version_number [scene_v1, scene_v2, notes_v1])"
    by (simp add: example_versions)
  have t: "inj_on (\<lambda>r. (publish_identity (publish_type_field example_model) r, version_number r))
     (set [scene_v1, notes_v1, scene_v2])"
    by (simp add: example_identities example_versions example_distinct example_distinct[symmetric])
  have c: "inj_on (identity_text example_repr)
     (publish_identity (publish_type_field example_model) ` set [scene_v1, notes_v1, scene_v2])"
    by (auto simp: inj_on_def example_identities identity_text_def)
  from same_selection_per_identity[OF p ax ay t c example_run] p ax ay ns t c example_run
  show ?thesis by blast
qed

section \<open>Loading and refreshing\<close>

text \<open>
  C3 says that both \<^verbatim>\<open>load_data\<close> methods trigger the refresh after loading the cached
  data. \<^verbatim>\<open>SgLatestPublishModel.load_data\<close> does not: its only call into the base class
  is the load.
\<close>

theorem latest_load_data_counterexample:
  "base_calls (SgLatestPublishModel_load_data ''PublishedFile'' example_model
                 (SgLink ''Shot'' 12 ''shot_010'') []) =
     [Load_data \<lparr>q_entity_type = ''PublishedFile'',
                 q_filters = Some [(''entity'', ''is'', SgLink ''Shot'' 12 ''shot_010'')],
                 q_hierarchy = [''code''],
                 q_fields = [''name'', ''entity'', ''version_number'', ''image'', ''published_file_type''],
                 q_order = Some [(''version_number'', ''asc'')]\<rparr>] \<and>
   Refresh_data \<notin> set (base_calls (SgLatestPublishModel_load_data ''PublishedFile'' example_model
                 (SgLink ''Shot'' 12 ''shot_010'') []))"
  by (simp add: SgLatestPublishModel_load_data_def example_model_def Let_def)

text \<open>
  C3, amended. A call of \<^verbatim>\<open>SgPublishHistoryModel.load_data\<close> that returns has loaded the
  cached data and, right after it, triggered the refresh; a call of
  \<^verbatim>\<open>SgLatestPublishModel.load_data\<close> loads the cached data and triggers no refresh,
  which its caller has to do with \<^verbatim>\<open>refresh_data()\<close>.
\<close>

theorem load_data_then_refresh:
  "(SgPublishHistoryModel_load_data publish_entity_type PUBLISHED_FILES_FIELDS app hm sg_data = Inr hm' \<longrightarrow>
      (\<exists>q. history_base_calls hm' = history_base_calls hm @ [Load_data q, Refresh_data])) \<and>
   (\<exists>q. base_calls (SgLatestPublishModel_load_data publish_entity_type m sg_entity_link folders) =
          base_calls m @ [Load_data q])"
  by (auto simp: SgLatestPublishModel_load_data_def SgPublishHistoryModel_load_data_def Let_def
      split: sum.splits)

theorem load_data_then_refresh_witness:
  "SgPublishHistoryModel_load_data ''PublishedFile'' example_fields example_settings
     example_history_model scene_v1 =
     Inr (example_history_model\<lparr>history_base_calls := [Load_data example_query, Refresh_data]\<rparr>) \<and>
   (\<exists>q. history_base_calls
           (example_history_model\<lparr>history_base_calls := [Load_data example_query, Refresh_data]\<rparr>) =
         history_base_calls example_history_model @ [Load_data q, Refresh_data]) \<and>
   (\<exists>q. base_calls (SgLatestPublishModel_load_data ''PublishedFile'' example_model SgNone []) =
          base_calls example_model @ [Load_data q])"
  using load_data_then_refresh[where publish_entity_type = "''PublishedFile''"
          and PUBLISHED_FILES_FIELDS = example_fields and app = example_settings
          and hm = example_history_model and sg_data = scene_v1
          and hm' = "example_history_model\<lparr>history_base_calls := [Load_data example_query, Refresh_data]\<rparr>"
          and m = example_model and sg_entity_link = SgNone and folders = "[]"]
        example_history_load
  by blast

section \<open>Thumbnails of the history model\<close>

text \<open>
  C4. \<^verbatim>\<open>_populate_thumbnail_image\<close> goes by the field of the delivery: the datum under
  \<^verbatim>\<open>PUBLISH_THUMB_ROLE\<close> stays as it is unless the field is the image field expected
  for the item, the datum under \<^verbatim>\<open>USER_THUMB_ROLE\<close> stays as it is unless the field is
  \<^verbatim>\<open>created_by.HumanUser.image\<close>, a delivery for any other field leaves both as they
  are, and the data under all other roles are never touched.
\<close>

theorem thumbnail_matched_by_field:
  "(Some field \<noteq> get_field item (use_version_thumbnail_as_fallback m) \<longrightarrow>
      item_data (populate_thumbnail_image get_field overlay m item field img path) PUBLISH_THUMB_ROLE =
        item_data item PUBLISH_THUMB_ROLE) \<and>
   (field \<noteq> ''created_by.HumanUser.image'' \<longrightarrow>
      item_data (populate_thumbnail_image get_field overlay m item field img path) USER_THUMB_ROLE =
        item_data item USER_THUMB_ROLE) \<and>
   (Some field \<noteq> get_field item (use_version_thumbnail_as_fallback m) \<and>
    field \<noteq> ''created_by.HumanUser.image'' \<longrightarrow>
      item_data (populate_thumbnail_image get_field overlay m item field img path) PUBLISH_THUMB_ROLE =
        item_data item PUBLISH_THUMB_ROLE \<and>
      item_data (populate_thumbnail_image get_field overlay m item field img path) USER_THUMB_ROLE =
        item_data item USER_THUMB_ROLE) \<and>
   (\<forall>r. r \<noteq> PUBLISH_THUMB_ROLE \<and> r \<noteq> USER_THUMB_ROLE \<longrightarrow>
      item_data (populate_thumbnail_image get_field overlay m item field img path) r = item_data item r)"
  by (simp add: populate_thumbnail_image_def Let_def setData_def setIcon_def
      PUBLISH_THUMB_ROLE_def USER_THUMB_ROLE_def)

theorem thumbnail_matched_by_field_witness:
  "Some ''created_by.HumanUser.image'' \<noteq>
     example_thumbnail_field example_item (use_version_thumbnail_as_fallback example_history_model) \<and>
   item_data (populate_thumbnail_image example_thumbnail_field example_overlay example_history_model
        example_item ''created_by.HumanUser.image'' ''user.jpg'' ''/tmp/user.jpg'') PUBLISH_THUMB_ROLE =
     item_data example_item PUBLISH_THUMB_ROLE \<and>
   ''image'' \<noteq> ''created_by.HumanUser.image'' \<and>
   item_data (populate_thumbnail_image example_thumbnail_field example_overlay example_history_model
        example_item ''image'' ''publish.jpg'' ''/tmp/publish.jpg'') USER_THUMB_ROLE =
     item_data example_item USER_THUMB_ROLE \<and>
   Some ''code'' \<noteq>
     example_thumbnail_field example_item (use_version_thumbnail_as_fallback example_history_model) \<and>
   ''code'' \<noteq> ''created_by.HumanUser.image'' \<and>
   item_data (populate_thumbnail_image example_thumbnail_field example_overlay example_history_model
        example_item ''code'' ''other.jpg'' ''/tmp/other.jpg'') PUBLISH_THUMB_ROLE =
     item_data example_item PUBLISH_THUMB_ROLE \<and>
   item_data (populate_thumbnail_image example_thumbnail_field example_overlay example_history_model
        example_item ''code'' ''other.jpg'' ''/tmp/other.jpg'') USER_THUMB_ROLE =
     item_data example_item USER_THUMB_ROLE \<and>
   UserRole 1 \<noteq> PUBLISH_THUMB_ROLE \<and> UserRole 1 \<noteq> USER_THUMB_ROLE \<and>
   item_data (populate_thumbnail_image example_thumbnail_field example_overlay example_history_model
        example_item ''image'' ''publish.jpg'' ''/tmp/publish.jpg'') (UserRole 1) =
     item_data example_item (UserRole 1)"
  using thumbnail_matched_by_field[where field = "''created_by.HumanUser.image''"
          and get_field = example_thumbnail_field
          and item = example_item and m = example_history_model and overlay = example_overlay
          and img = "''user.jpg''" and path = "''/tmp/user.jpg''"]
        thumbnail_matched_by_field[where field = "''image''" and get_field = example_thumbnail_field
          and item = example_item and m = example_history_model and overlay = example_overlay
          and img = "''publish.jpg''" and path = "''/tmp/publish.jpg''"]
        thumbnail_matched_by_field[where field = "''code''" and get_field = example_thumbnail_field
          and item = example_item and m = example_history_model and overlay = example_overlay
          and img = "''other.jpg''" and path = "''/tmp/other.jpg''"]
  by (simp add: example_thumbnail_field_def PUBLISH_THUMB_ROLE_def USER_THUMB_ROLE_def)

section \<open>The publish-type field\<close>

text \<open>
  C5. Both \<^verbatim>\<open>load_data\<close> methods resolve the publish-type field from the publish entity
  type, \<^verbatim>\<open>published_file_type\<close> for \<^verbatim>\<open>PublishedFile\<close> and \<^verbatim>\<open>tank_type\<close> for any other,
  and put it into the field list of the query they hand to the base class: the latest
  publish model keeps it as its attribute and requests it as one of its fields, the
  history model requests it as the first of its fields.
\<close>

theorem publish_type_field_resolved:
  "(publish_entity_type = ''PublishedFile'' \<longrightarrow>
      publish_type_field (SgLatestPublishModel_load_data publish_entity_type m sg_entity_link folders) =
        ''published_file_type'') \<and>
   (publish_entity_type \<noteq> ''PublishedFile'' \<longrightarrow>
      publish_type_field (SgLatestPublishModel_load_data publish_entity_type m sg_entity_link folders) =
        ''tank_type'') \<and>
   (\<exists>q. base_calls (SgLatestPublishModel_load_data publish_entity_type m sg_entity_link folders) =
           base_calls m @ [Load_data q] \<and>
         publish_type_field (SgLatestPublishModel_load_data publish_entity_type m sg_entity_link folders)
           \<in> set (q_fields q)) \<and>
   (SgPublishHistoryModel_load_data publish_entity_type PUBLISHED_FILES_FIELDS app hm sg_data = Inr hm' \<longrightarrow>
      (\<exists>q f. history_base_calls hm' = history_base_calls hm @ [Load_data q, Refresh_data] \<and>
           (publish_entity_type = ''PublishedFile'' \<longrightarrow> f = ''published_file_type'') \<and>
           (publish_entity_type \<noteq> ''PublishedFile'' \<longrightarrow> f = ''tank_type'') \<and>
           q_fields q = f # PUBLISHED_FILES_FIELDS @ published_file_fields app \<and>
           f \<in> set (q_fields q)))"
  by (auto simp: SgLatestPublishModel_load_data_def SgPublishHistoryModel_load_data_def Let_def
      split: sum.splits)

theorem publish_type_field_resolved_witness:
  "publish_type_field (SgLatestPublishModel_load_data ''PublishedFile'' example_model SgNone []) =
     ''published_file_type'' \<and>
   ''TankPublishedFile'' \<noteq> ''PublishedFile'' \<and>
   publish_type_field (SgLatestPublishModel_load_data ''TankPublishedFile'' example_model SgNone []) =
     ''tank_type'' \<and>
   SgPublishHistoryModel_load_data ''PublishedFile'' example_fields example_settings
     example_history_model scene_v1 =
     Inr (example_history_model\<lparr>history_base_calls := [Load_data example_query, Refresh_data]\<rparr>) \<and>
   (\<exists>q f. history_base_calls
             (example_history_model\<lparr>history_base_calls := [Load_data example_query, Refresh_data]\<rparr>) =
           history_base_calls example_history_model @ [Load_data q, Refresh_data] \<and>
           f = ''published_file_type'' \<and>
           q_fields q = f # example_fields @ published_file_fields example_settings \<and>
           f \<in> set (q_fields q))"
proof -
  have n: "''TankPublishedFile'' \<noteq> ''PublishedFile''" by simp
  note a = publish_type_field_resolved[where publish_entity_type = "''PublishedFile''"
          and PUBLISHED_FILES_FIELDS = example_fields and app = example_settings
          and hm = example_history_model and sg_data = scene_v1
          and hm' = "example_history_model\<lparr>history_base_calls := [Load_data example_query, Refresh_data]\<rparr>"
          and m = example_model and sg_entity_link = SgNone and folders = "[]"]
  note b = publish_type_field_resolved[where publish_entity_type = "''TankPublishedFile''"
          and m = example_model and sg_entity_link = SgNone and folders = "[]"]
  from a have 1: "publish_type_field
      (SgLatestPublishModel_load_data ''PublishedFile'' example_model SgNone []) =
     ''published_file_type''" by blast
  from b n have 2: "publish_type_field
      (SgLatestPublishModel_load_data ''TankPublishedFile'' example_model SgNone []) =
     ''tank_type''" by blast
  from a example_history_load have 3: "\<exists>q f. history_base_calls
             (example_history_model\<lparr>history_base_calls := [Load_data example_query, Refresh_data]\<rparr>) =
           history_base_calls example_history_model @ [Load_data q, Refresh_data] \<and>
           f = ''published_file_type'' \<and>
           q_fields q = f # example_fields @ published_file_fields example_settings \<and>
           f \<in> set (q_fields q)" by blast
  from 1 2 3 n example_history_load show ?thesis by blast
qed

section \<open>The returned records and the type counts\<close>



text \<open>
  C8. Given no records, \<^verbatim>\<open>_before_data_processing\<close> returns the empty list and hands
  the empty mapping to \<^verbatim>\<open>set_active_types\<close>, whether or not the model has tree view
  folder items.
\<close>

theorem empty_input_empty_result:
  "\<exists>m'. before_data_processing repr m [] = Inr ([], m') \<and>
        set_active_types_calls m' = set_active_types_calls m @ [[]]"
  by (simp add: before_data_processing_def)

theorem empty_input_empty_result_witness:
  "treeview_folder_items example_model = [] \<and>
   (\<exists>m'. before_data_processing example_repr example_model [] = Inr ([], m') \<and>
         set_active_types_calls m' = set_active_types_calls example_model @ [[]]) \<and>
   treeview_folder_items example_folder_model = [shot_folder, plain_folder] \<and>
   (\<exists>m'. before_data_processing example_repr example_folder_model [] = Inr ([], m') \<and>
         set_active_types_calls m' = set_active_types_calls example_folder_model @ [[]])"
  using empty_input_empty_result[of example_repr example_model]
        empty_input_empty_result[of example_repr example_folder_model]
  by (simp add: example_model_def example_folder_model_def)

text \<open>
  C9. The mapping that a returning call of \<^verbatim>\<open>_before_data_processing\<close> hands to
  \<^verbatim>\<open>set_active_types\<close> has one entry per key; the count under a key, \<open>None\<close> included,
  is the number of returned records whose publish-type link has that id, and the
  counts add up to the length of the returned list.
\<close>

theorem aggregates_count_returned:
  assumes "before_data_processing repr m sg_data_list = Inr (new_sg_data, m')"
  shows "\<exists>aggregates.
           set_active_types_calls m' = set_active_types_calls m @ [aggregates] \<and>
           distinct (map fst aggregates) \<and>
           (\<forall>(k, c) \<in> set aggregates.
              c = int (length (filter (\<lambda>r. type_link_id (publish_type_field m) r = k) new_sg_data))) \<and>
           sum_list (map snd aggregates) = int (length new_sg_data)"
proof -
  let ?fld = "publish_type_field m"
  from before_data_processing_Inr[OF assms] obtain u where
    u: "first_pass repr ?fld [] sg_data_list = Inr u" and
    out: "new_sg_data = map (fst \<circ> snd) u" and
    calls: "set_active_types_calls m' =
              set_active_types_calls m @ [snd (second_pass [] [] (map snd u))]" by blast
  let ?a = "snd (second_pass [] [] (map snd u))"
  have d: "distinct (map fst ?a)" by (rule second_pass_distinct) simp
  have s: "sum_list (map snd ?a) = int (length new_sg_data)"
    by (simp add: second_pass_sum out)
  have c: "c = int (length (filter (\<lambda>r. type_link_id ?fld r = k) new_sg_data))"
    if "(k, c) \<in> set ?a" for k c
  proof -
    from that d have "map_of ?a k = Some c" by simp
    with second_pass_count[of "[]" "[]" "map snd u" k]
    have "c = int (length (filter (\<lambda>e. snd e = k) (map snd u)))" by simp
    also have "length (filter (\<lambda>e. snd e = k) (map snd u)) =
               length (filter (\<lambda>r. type_link_id ?fld r = k) (map fst (map snd u)))"
      by (rule count_by_type_id) (rule first_pass_type_ids[OF u])
    finally show ?thesis by (simp add: out comp_def)
  qed
  from calls d c s show ?thesis by blast
qed

theorem aggregates_count_returned_witness:
  "before_data_processing example_repr example_model [scene_v1, notes_v1, scene_v2] =
     Inr ([scene_v2, notes_v1],
          example_model\<lparr>set_active_types_calls := [[(Some 7, 1), (None, 1)]]\<rparr>) \<and>
   (\<exists>aggregates.
      set_active_types_calls (example_model\<lparr>set_active_types_calls := [[(Some 7, 1), (None, 1)]]\<rparr>) =
        set_active_types_calls example_model @ [aggregates] \<and>
      distinct (map fst aggregates) \<and>
      (\<forall>(k, c) \<in> set aggregates.
         c = int (length (filter (\<lambda>r. type_link_id (publish_type_field example_model) r = k)
                            [scene_v2, notes_v1]))) \<and>
      sum_list (map snd aggregates) = int (length [scene_v2, notes_v1]))"
  using aggregates_count_returned[OF example_run] example_run by blast

section \<open>Folders and records in the latest publish model\<close>

text \<open>
  C10. Let \<^verbatim>\<open>ShotgunModel.SG_DATA_ROLE\<close> be none of the three roles of the model. A
  returning call of \<^verbatim>\<open>_load_external_data\<close> appends one row per tree view folder item,
  in the order of the list: the row at each position is associated with the folder
  item at that position, has its text, has \<^verbatim>\<open>IS_FOLDER_ROLE\<close> set to \<^verbatim>\<open>True\<close> and
  \<^verbatim>\<open>TYPE_ID_ROLE\<close> set to \<^verbatim>\<open>None\<close>. A returning call of \<^verbatim>\<open>_populate_item\<close> leaves the
  item with \<^verbatim>\<open>IS_FOLDER_ROLE\<close> set to \<^verbatim>\<open>False\<close>.
\<close>

theorem is_folder_role_partition:
  "(load_external_data SG_DATA_ROLE m = Inr m' \<and>
    SG_DATA_ROLE \<notin> {TYPE_ID_ROLE, IS_FOLDER_ROLE, ASSOCIATED_TREE_VIEW_ITEM_ROLE} \<longrightarrow>
      (\<exists>new. rows m' = rows m @ new \<and> length new = length (treeview_folder_items m) \<and>
         (\<forall>i < length new.
            item_data (new ! i) ASSOCIATED_TREE_VIEW_ITEM_ROLE =
              QTreeViewItem (treeview_folder_items m ! i) \<and>
            item_text (new ! i) = tv_text (treeview_folder_items m ! i) \<and>
            item_data (new ! i) IS_FOLDER_ROLE = QBool True \<and>
            item_data (new ! i) TYPE_ID_ROLE = QNone))) \<and>
   (populate_item pm item sg_data = Inr item' \<longrightarrow> item_data item' IS_FOLDER_ROLE = QBool False)"
proof (intro conjI impI)
  assume a: "load_external_data SG_DATA_ROLE m = Inr m' \<and>
    SG_DATA_ROLE \<notin> {TYPE_ID_ROLE, IS_FOLDER_ROLE, ASSOCIATED_TREE_VIEW_ITEM_ROLE}"
  let ?new = "map (folder_item SG_DATA_ROLE) (treeview_folder_items m)"
  from a have "rows m' = rows m @ ?new"
    using load_folder_items_rows[of SG_DATA_ROLE "m\<lparr>folder_items := []\<rparr>" "treeview_folder_items m" m']
    by (simp add: load_external_data_def)
  moreover have "length ?new = length (treeview_folder_items m)" by simp
  moreover from a have "\<forall>i < length ?new.
            item_data (?new ! i) ASSOCIATED_TREE_VIEW_ITEM_ROLE =
              QTreeViewItem (treeview_folder_items m ! i) \<and>
            item_text (?new ! i) = tv_text (treeview_folder_items m ! i) \<and>
            item_data (?new ! i) IS_FOLDER_ROLE = QBool True \<and>
            item_data (?new ! i) TYPE_ID_ROLE = QNone"
    by (simp add: folder_item_data)
  ultimately show "\<exists>new. rows m' = rows m @ new \<and> length new = length (treeview_folder_items m) \<and>
         (\<forall>i < length new.
            item_data (new ! i) ASSOCIATED_TREE_VIEW_ITEM_ROLE =
              QTreeViewItem (treeview_folder_items m ! i) \<and>
            item_text (new ! i) = tv_text (treeview_folder_items m ! i) \<and>
            item_data (new ! i) IS_FOLDER_ROLE = QBool True \<and>
            item_data (new ! i) TYPE_ID_ROLE = QNone)" by blast
next
  assume "populate_item pm item sg_data = Inr item'"
  then show "item_data item' IS_FOLDER_ROLE = QBool False"
    by (auto simp: populate_item_def Let_def setData_def setIcon_def TYPE_ID_ROLE_def
        IS_FOLDER_ROLE_def split: sum.splits if_splits sg_value.splits)
qed

theorem is_folder_role_partition_witness:
  "load_external_data (UserRole 1) example_folder_model = Inr example_loaded_model \<and>
   UserRole 1 \<notin> {TYPE_ID_ROLE, IS_FOLDER_ROLE, ASSOCIATED_TREE_VIEW_ITEM_ROLE} \<and>
   populate_item example_model example_item scene_v1 = Inr example_populated_item \<and>
   (\<exists>new. rows example_loaded_model = rows example_folder_model @ new \<and>
      length new = length (treeview_folder_items example_folder_model) \<and>
      (\<forall>i < length new.
         item_data (new ! i) ASSOCIATED_TREE_VIEW_ITEM_ROLE =
           QTreeViewItem (treeview_folder_items example_folder_model ! i) \<and>
         item_text (new ! i) = tv_text (treeview_folder_items example_folder_model ! i) \<and>
         item_data (new ! i) IS_FOLDER_ROLE = QBool True \<and>
         item_data (new ! i) TYPE_ID_ROLE = QNone)) \<and>
   item_data example_populated_item IS_FOLDER_ROLE = QBool False"
proof -
  have r: "UserRole 1 \<notin> {TYPE_ID_ROLE, IS_FOLDER_ROLE, ASSOCIATED_TREE_VIEW_ITEM_ROLE}"
    by (simp add: TYPE_ID_ROLE_def IS_FOLDER_ROLE_def ASSOCIATED_TREE_VIEW_ITEM_ROLE_def)
  note c = is_folder_role_partition[where SG_DATA_ROLE = "UserRole 1" and m = example_folder_model
        and m' = example_loaded_model and pm = example_model and item = example_item
        and sg_data = scene_v1 and item' = example_populated_item]
  from c example_load_external r example_populate show ?thesis by blast
qed

end
